theory Spec2Isabelle
  imports Main "HOL-Library.Sublist"
begin

section \<open>The WESCO cleanup verifier (verify_wesco_cleanup.py)\<close>

text \<open>
  The script reads six JSON files below \<^verbatim>\<open>supplyfind-updates/us/co\<close>, keeps the branch
  records whose chain or name mentions WESCO or whose name mentions KVA, and checks the
  kept entries against a fixed list of expectations. The model follows the function
  \<^verbatim>\<open>verify_wesco_cleanup\<close> statement by statement: the local variables are a record
  that is passed along, every \<^verbatim>\<open>print\<close> appends one line to the console, and an
  exception ends the run with the console as it was when the exception was raised.
\<close>

subsection \<open>Input: the file system and the JSON documents\<close>

text \<open>
  A branch record is a JSON object. The fields the script reads hold strings (section 3 of
  the specification), and any of them may be absent, so a record is a partial map from
  field names to strings, and \<^verbatim>\<open>b.get(k)\<close> is \<open>b k\<close>: \<open>None\<close> where the field is absent.
\<close>

type_synonym branch = "string \<Rightarrow> string option"

text \<open>
  What \<^verbatim>\<open>json.load\<close> makes of a file that exists: it raises on a text that is not
  JSON, and otherwise gives an object whose \<^verbatim>\<open>branches\<close> member, an array of branch
  records, may be absent. The file system says whether the directory
  \<^verbatim>\<open>supplyfind-updates/us/co\<close> exists and what is at each path.
\<close>

datatype json_file = Malformed | Document "branch list option"

record filesystem =
  dir_exists :: bool
  file_at :: "string \<Rightarrow> json_file option"

datatype error = JSONDecodeError | TypeError

subsection \<open>Python's operators on strings\<close>

text \<open>\<^verbatim>\<open>sub in s\<close> on two strings: \<open>sub\<close> occurs in \<open>s\<close> as a contiguous block.\<close>

fun contains :: "string \<Rightarrow> string \<Rightarrow> bool" where
  "contains sub [] = (sub = [])"
| "contains sub (c # cs) = (prefix sub (c # cs) \<or> contains sub cs)"

text \<open>\<^verbatim>\<open>sub in v\<close> where \<open>v\<close> may be \<^verbatim>\<open>None\<close>: Python raises TypeError then.\<close>

fun py_in :: "string \<Rightarrow> string option \<Rightarrow> error + bool" where
  "py_in sub None = Inl TypeError"
| "py_in sub (Some s) = Inr (contains sub s)"

text \<open>\<^verbatim>\<open>b.get(k, '')\<close>.\<close>

definition get_default :: "branch \<Rightarrow> string \<Rightarrow> string \<Rightarrow> string" where
  "get_default b k d = (case b k of None \<Rightarrow> d | Some v \<Rightarrow> v)"

text \<open>The text an f-string puts for a value that is a string or \<^verbatim>\<open>None\<close>.\<close>

fun py_str :: "string option \<Rightarrow> string" where
  "py_str None = ''None''"
| "py_str (Some s) = s"

text \<open>
  A list comprehension \<^verbatim>\<open>[e for e in xs if p(e)]\<close> whose condition may raise: the
  elements are tested from left to right and the first exception ends the comprehension.
\<close>

fun filter_e :: "('a \<Rightarrow> error + bool) \<Rightarrow> 'a list \<Rightarrow> error + 'a list" where
  "filter_e p [] = Inr []"
| "filter_e p (x # xs) =
     (case p x of
        Inl err \<Rightarrow> Inl err
      | Inr b \<Rightarrow>
          (case filter_e p xs of
             Inl err \<Rightarrow> Inl err
           | Inr ys \<Rightarrow> Inr (if b then x # ys else ys)))"

subsection \<open>The matched entries and the console\<close>

text \<open>
  The dictionary appended to \<^verbatim>\<open>all_wesco_entries\<close> (lines 69 to 78). Its key
  \<^verbatim>\<open>'file'\<close> is the field \<open>file_path\<close> here.
\<close>

record matched_entry =
  file_path :: string
  name :: "string option"
  chain :: "string option"
  city :: "string option"
  address :: "string option"
  phone :: "string option"
  verified :: "string option"
  operating_name :: "string option"

text \<open>
  One constructor for each \<^verbatim>\<open>print\<close> of the script, with the values its f-string
  shows. The comment gives the source line.
\<close>

datatype line =
    Err_no_directory                 \<comment> \<open>24: Error: supplyfind-updates directory not found\<close>
  | Hint_repository_root             \<comment> \<open>25\<close>
  | Rule                             \<comment> \<open>41, 43, 85, 87, 186, 200: eighty equals signs\<close>
  | Blank                            \<comment> \<open>44, 83, 90, 100, 169, 185, 190, 197\<close>
  | Title_verification               \<comment> \<open>42: WESCO CLEANUP VERIFICATION\<close>
  | File_header string               \<comment> \<open>64: the path below supplyfind-updates\<close>
  | File_total nat                   \<comment> \<open>65: Total branches\<close>
  | File_matches nat                 \<comment> \<open>66: WESCO/KVA entries\<close>
  | Entry_name "string option"       \<comment> \<open>80\<close>
  | Entry_chain "string option"      \<comment> \<open>81\<close>
  | Entry_address "string option" "string option"  \<comment> \<open>82: address1, city\<close>
  | Title_summary                    \<comment> \<open>86: SUMMARY\<close>
  | Summary_total nat                \<comment> \<open>88: Total branches scanned\<close>
  | Summary_matches nat              \<comment> \<open>89: Total WESCO/KVA entries found\<close>
  | Unique_count nat                 \<comment> \<open>99: Unique WESCO/KVA locations\<close>
  | Fail_unique nat                  \<comment> \<open>106: FAIL: Expected exactly 2 unique WESCO locations\<close>
  | Pass_unique                      \<comment> \<open>109: PASS: Exactly 2 unique WESCO/KVA locations found\<close>
  | Note_unique                      \<comment> \<open>110\<close>
  | Fail_denver_missing nat          \<comment> \<open>119: FAIL: Expected at least 1 Denver KVA Supply Co entry\<close>
  | Fail_denver_inconsistent         \<comment> \<open>130: FAIL: Denver KVA Supply Co entries are inconsistent\<close>
  | Fail_denver_name "string option" \<comment> \<open>133: FAIL: Denver entry name is ...\<close>
  | Fail_denver_chain "string option" \<comment> \<open>136: FAIL: Denver entry chain is ...\<close>
  | Warn_denver_operating_name       \<comment> \<open>139: WARNING: Denver entry missing 'operatingName' field\<close>
  | Pass_denver                      \<comment> \<open>141: PASS: Denver KVA Supply Co entry correctly configured\<close>
  | Show_name "string option"        \<comment> \<open>142, 165\<close>
  | Show_chain "string option"       \<comment> \<open>143\<close>
  | Show_operating_name "string option"  \<comment> \<open>144\<close>
  | Show_phone "string option"       \<comment> \<open>145, 166\<close>
  | Note_denver_files nat            \<comment> \<open>147: Appears in n files\<close>
  | Fail_pueblo_count nat            \<comment> \<open>156: FAIL: Expected 1 Pueblo WESCO entry, found n\<close>
  | Fail_pueblo_chain "string option" \<comment> \<open>161: FAIL: Pueblo entry chain is ...\<close>
  | Pass_pueblo                      \<comment> \<open>164: PASS: Pueblo WESCO entry correctly retained\<close>
  | Title_removed                    \<comment> \<open>170: Checking for removed entries...\<close>
  | Fail_removed string              \<comment> \<open>180: FAIL: Found entry that should have been removed\<close>
  | Pass_removed string              \<comment> \<open>183: PASS: Confirmed removed\<close>
  | All_passed                       \<comment> \<open>189: ALL CHECKS PASSED\<close>
  | Closing_completed                \<comment> \<open>191\<close>
  | Closing_only_two                 \<comment> \<open>192\<close>
  | Closing_denver                   \<comment> \<open>193\<close>
  | Closing_pueblo                   \<comment> \<open>194\<close>
  | Some_failed                      \<comment> \<open>196: SOME CHECKS FAILED\<close>
  | Closing_review                   \<comment> \<open>198\<close>

text \<open>The local variables of \<^verbatim>\<open>verify_wesco_cleanup\<close>, and what it has printed.\<close>

record state =
  all_wesco_entries :: "matched_entry list"
  total_branches :: nat
  success :: bool
  console :: "line list"

definition print :: "line \<Rightarrow> state \<Rightarrow> state" where
  "print l st = st\<lparr>console := console st @ [l]\<rparr>"

definition prints :: "line list \<Rightarrow> state \<Rightarrow> state" where
  "prints ls st = st\<lparr>console := console st @ ls\<rparr>"

text \<open>
  A step that may raise gives \<open>Inl (e, c)\<close>: the exception \<open>e\<close>, and the console \<open>c\<close>
  at that moment.
\<close>

type_synonym outcome = "(error \<times> line list) + state"

subsection \<open>Locating and loading the files (lines 21 to 83)\<close>

definition base_dir :: string where
  "base_dir = ''supplyfind-updates/us/co''"

definition files_to_check :: "string list" where
  "files_to_check =
     [base_dir @ ''/denver-metro.json'',
      base_dir @ ''/electrical/denver-metro.json'',
      base_dir @ ''/electrical/front-range-north.json'',
      base_dir @ ''/electrical/pueblo-south.json'',
      base_dir @ ''/electrical/colorado-springs-metro.json'',
      base_dir @ ''/electrical/boulder-broomfield-longmont.json'']"

text \<open>
  \<^verbatim>\<open>filepath.relative_to('supplyfind-updates')\<close>: the path without that directory and
  the separator after it. Every path of \<open>files_to_check\<close> starts with them.
\<close>

definition relative_to :: "string \<Rightarrow> string \<Rightarrow> string" where
  "relative_to root p = drop (length root + 1) p"

text \<open>The condition of the comprehension of lines 56 to 61.\<close>

definition is_wesco :: "branch \<Rightarrow> bool" where
  "is_wesco b \<longleftrightarrow>
     contains ''WESCO'' (get_default b ''chain'' [])
     \<or> contains ''WESCO'' (get_default b ''name'' [])
     \<or> contains ''KVA'' (get_default b ''name'' [])"

definition wesco_entries :: "branch list \<Rightarrow> branch list" where
  "wesco_entries branches = filter is_wesco branches"

definition entry_of :: "string \<Rightarrow> branch \<Rightarrow> matched_entry" where
  "entry_of filepath entry =
     \<lparr>file_path = relative_to ''supplyfind-updates'' filepath,
      name = entry ''name'',
      chain = entry ''chain'',
      city = entry ''city'',
      address = entry ''address1'',
      phone = entry ''phone'',
      verified = entry ''last_verified'',
      operating_name = entry ''operatingName''\<rparr>"

text \<open>The loop of lines 68 to 82 over the matches of one file.\<close>

fun record_entries :: "string \<Rightarrow> branch list \<Rightarrow> state \<Rightarrow> state" where
  "record_entries filepath [] st = st"
| "record_entries filepath (entry # rest) st =
     record_entries filepath rest
       (prints [Entry_name (entry ''name''),
                Entry_chain (entry ''chain''),
                Entry_address (entry ''address1'') (entry ''city'')]
          (st\<lparr>all_wesco_entries := all_wesco_entries st @ [entry_of filepath entry]\<rparr>))"

text \<open>The body of the loop of lines 46 to 83 for a file that exists and parses.\<close>

definition load_file :: "string \<Rightarrow> branch list option \<Rightarrow> state \<Rightarrow> state" where
  "load_file filepath data st =
     (let branches = (case data of None \<Rightarrow> [] | Some bs \<Rightarrow> bs);
          st1 = st\<lparr>total_branches := total_branches st + length branches\<rparr>;
          matches = wesco_entries branches
      in if matches \<noteq> [] then
           print Blank
             (record_entries filepath matches
                (prints [File_header (relative_to ''supplyfind-updates'' filepath),
                         File_total (length branches),
                         File_matches (length matches)] st1))
         else st1)"

fun scan_files :: "filesystem \<Rightarrow> string list \<Rightarrow> state \<Rightarrow> outcome" where
  "scan_files fs [] st = Inr st"
| "scan_files fs (filepath # rest) st =
     (case file_at fs filepath of
        None \<Rightarrow> scan_files fs rest st
      | Some Malformed \<Rightarrow> Inl (JSONDecodeError, console st)
      | Some (Document data) \<Rightarrow> scan_files fs rest (load_file filepath data st))"

subsection \<open>Deduplication (lines 93 to 99)\<close>

definition location_key :: "matched_entry \<Rightarrow> string" where
  "location_key entry = py_str (city entry) @ ''-'' @ py_str (address entry)"

text \<open>
  The dictionary \<^verbatim>\<open>unique_locations\<close> as the list of its items in insertion order; a
  key is added only when it is not in the dictionary yet.
\<close>

fun dedup :: "matched_entry list \<Rightarrow> (string \<times> matched_entry) list \<Rightarrow> (string \<times> matched_entry) list" where
  "dedup [] d = d"
| "dedup (entry # rest) d =
     dedup rest
       (if map_of d (location_key entry) = None then d @ [(location_key entry, entry)] else d)"

definition unique_locations :: "matched_entry list \<Rightarrow> (string \<times> matched_entry) list" where
  "unique_locations entries = dedup entries []"

subsection \<open>The checks (lines 103 to 183)\<close>

definition fail :: "state \<Rightarrow> state" where
  "fail st = st\<lparr>success := False\<rparr>"

definition check_unique :: "nat \<Rightarrow> state \<Rightarrow> state" where
  "check_unique n st =
     (if n \<noteq> 2 then fail (print (Fail_unique n) st)
      else prints [Pass_unique, Note_unique] st)"

definition is_denver_kva :: "matched_entry \<Rightarrow> error + bool" where
  "is_denver_kva e =
     (if city e = Some ''Denver'' then py_in ''11198 E 45th'' (address e) else Inr False)"

definition denver_consistent :: "matched_entry \<Rightarrow> bool" where
  "denver_consistent e \<longleftrightarrow> name e = Some ''KVA Supply Co'' \<and> chain e = Some ''WESCO''"

definition judge_denver :: "matched_entry list \<Rightarrow> state \<Rightarrow> state" where
  "judge_denver denver_kva st =
     (if length denver_kva < 1 then fail (print (Fail_denver_missing (length denver_kva)) st)
      else
        let entry = hd denver_kva;
            all_consistent = list_all denver_consistent denver_kva
        in if \<not> all_consistent then fail (print Fail_denver_inconsistent st)
           else if name entry \<noteq> Some ''KVA Supply Co'' then
             fail (print (Fail_denver_name (name entry)) st)
           else if chain entry \<noteq> Some ''WESCO'' then
             fail (print (Fail_denver_chain (chain entry)) st)
           else if operating_name entry \<noteq> Some ''KVA Supply Co'' then
             print Warn_denver_operating_name st
           else
             (if length denver_kva > 1 then print (Note_denver_files (length denver_kva)) else id)
               (prints [Pass_denver,
                        Show_name (name entry),
                        Show_chain (chain entry),
                        Show_operating_name (operating_name entry),
                        Show_phone (phone entry)] st))"

definition check_denver :: "state \<Rightarrow> outcome" where
  "check_denver st =
     (case filter_e is_denver_kva (all_wesco_entries st) of
        Inl err \<Rightarrow> Inl (err, console st)
      | Inr denver_kva \<Rightarrow> Inr (judge_denver denver_kva st))"

definition is_pueblo_wesco :: "matched_entry \<Rightarrow> error + bool" where
  "is_pueblo_wesco e =
     (if city e = Some ''Pueblo'' then py_in ''115 S Main'' (address e) else Inr False)"

definition judge_pueblo :: "matched_entry list \<Rightarrow> state \<Rightarrow> state" where
  "judge_pueblo pueblo_wesco st =
     (if length pueblo_wesco \<noteq> 1 then
        fail (print (Fail_pueblo_count (length pueblo_wesco)) st)
      else
        let entry = hd pueblo_wesco
        in if chain entry \<noteq> Some ''WESCO'' then
             fail (print (Fail_pueblo_chain (chain entry)) st)
           else prints [Pass_pueblo, Show_name (name entry), Show_phone (phone entry)] st)"

definition check_pueblo :: "state \<Rightarrow> outcome" where
  "check_pueblo st =
     (case filter_e is_pueblo_wesco (all_wesco_entries st) of
        Inl err \<Rightarrow> Inl (err, console st)
      | Inr pueblo_wesco \<Rightarrow> Inr (judge_pueblo pueblo_wesco st))"

definition invalid_addresses :: "string list" where
  "invalid_addresses = [''756 S Jason'', ''6883 E 47th'', ''133 Commerce'']"

text \<open>The loop of lines 177 to 183.\<close>

fun check_removed :: "string list \<Rightarrow> state \<Rightarrow> outcome" where
  "check_removed [] st = Inr st"
| "check_removed (addr # rest) st =
     (case filter_e (\<lambda>e. py_in addr (address e)) (all_wesco_entries st) of
        Inl err \<Rightarrow> Inl (err, console st)
      | Inr found \<Rightarrow>
          check_removed rest
            (if found \<noteq> [] then fail (print (Fail_removed addr) st)
             else print (Pass_removed addr) st))"

text \<open>Lines 103 to 183: the four checks in their order.\<close>

definition validate :: "state \<Rightarrow> outcome" where
  "validate st =
     (let uniq = unique_locations (all_wesco_entries st);
          st1 = check_unique (length uniq) (st\<lparr>success := True\<rparr>)
      in case check_denver st1 of
           Inl x \<Rightarrow> Inl x
         | Inr st2 \<Rightarrow>
             (case check_pueblo st2 of
                Inl x \<Rightarrow> Inl x
              | Inr st3 \<Rightarrow> check_removed invalid_addresses (prints [Blank, Title_removed] st3)))"

subsection \<open>The whole run\<close>

text \<open>Lines 85 to 100: the summary block.\<close>

definition summarise :: "state \<Rightarrow> state" where
  "summarise st =
     prints [Rule, Title_summary, Rule,
             Summary_total (total_branches st),
             Summary_matches (length (all_wesco_entries st)),
             Blank,
             Unique_count (length (unique_locations (all_wesco_entries st))),
             Blank] st"

text \<open>Lines 185 to 200: the closing banner.\<close>

definition banner :: "state \<Rightarrow> state" where
  "banner st =
     print Rule
       ((if success st then
           prints [All_passed, Blank, Closing_completed, Closing_only_two,
                   Closing_denver, Closing_pueblo]
         else prints [Some_failed, Blank, Closing_review])
          (prints [Blank, Rule] st))"

text \<open>
  The locals before the first file is read. \<^verbatim>\<open>success\<close> is assigned at line 103 only;
  \<open>validate\<close> sets it there, so its value in this record is never read.
\<close>

definition initial :: state where
  "initial = \<lparr>all_wesco_entries = [], total_branches = 0, success = True, console = []\<rparr>"

text \<open>
  \<^verbatim>\<open>verify_wesco_cleanup()\<close>: what it printed, and the value it returned or the
  exception it raised.
\<close>

definition verify_wesco_cleanup :: "filesystem \<Rightarrow> line list \<times> (error + bool)" where
  "verify_wesco_cleanup fs =
     (if \<not> dir_exists fs then ([Err_no_directory, Hint_repository_root], Inr False)
      else
        case scan_files fs files_to_check
               (prints [Rule, Title_verification, Rule, Blank] initial) of
          Inl (err, c) \<Rightarrow> (c, Inl err)
        | Inr st \<Rightarrow>
            (case validate (summarise st) of
               Inl (err, c) \<Rightarrow> (c, Inl err)
             | Inr st' \<Rightarrow> (console (banner st'), Inr (success st'))))"

text \<open>
  Lines 204 to 207: the exit status of the process. An exception that nothing catches
  ends the interpreter with status 1.
\<close>

definition exit_status :: "filesystem \<Rightarrow> nat" where
  "exit_status fs =
     (case snd (verify_wesco_cleanup fs) of
        Inr ok \<Rightarrow> (if ok then 0 else 1)
      | Inl err \<Rightarrow> 1)"

subsection \<open>Notions the properties are stated with\<close>

text \<open>
  The branch records of one file that pass the filter, and those of all six files in the
  order of the file list. A file that is absent, or has no \<^verbatim>\<open>branches\<close>, has none.
\<close>

definition matches_at :: "filesystem \<Rightarrow> string \<Rightarrow> branch list" where
  "matches_at fs p =
     (case file_at fs p of
        Some (Document (Some bs)) \<Rightarrow> wesco_entries bs
      | _ \<Rightarrow> [])"

definition present_matches :: "filesystem \<Rightarrow> branch list" where
  "present_matches fs = concat (map (matches_at fs) files_to_check)"

definition has_address :: "matched_entry \<Rightarrow> bool" where
  "has_address e \<longleftrightarrow> address e \<noteq> None"

text \<open>The address of an entry contains a text; an entry without address contains none.\<close>

definition address_contains :: "string \<Rightarrow> matched_entry \<Rightarrow> bool" where
  "address_contains sub e = (case address e of None \<Rightarrow> False | Some a \<Rightarrow> contains sub a)"

text \<open>
  The lists \<^verbatim>\<open>denver_kva\<close> and \<^verbatim>\<open>pueblo_wesco\<close> that the comprehensions of lines
  113 and 150 give when none of them raises.
\<close>

definition denver_kva :: "matched_entry list \<Rightarrow> matched_entry list" where
  "denver_kva es =
     filter (\<lambda>e. city e = Some ''Denver'' \<and> address_contains ''11198 E 45th'' e) es"

definition pueblo_wesco :: "matched_entry list \<Rightarrow> matched_entry list" where
  "pueblo_wesco es =
     filter (\<lambda>e. city e = Some ''Pueblo'' \<and> address_contains ''115 S Main'' e) es"

text \<open>The two branch records the cleanup is meant to leave, and a record at a removed address.\<close>

definition is_denver_branch :: "branch \<Rightarrow> bool" where
  "is_denver_branch b \<longleftrightarrow>
     b ''city'' = Some ''Denver'' \<and> b ''name'' = Some ''KVA Supply Co''
     \<and> b ''chain'' = Some ''WESCO'' \<and> b ''address1'' = Some ''11198 E 45th Ave''"

definition is_pueblo_branch :: "branch \<Rightarrow> bool" where
  "is_pueblo_branch b \<longleftrightarrow>
     b ''city'' = Some ''Pueblo'' \<and> b ''name'' = Some ''WESCO''
     \<and> b ''chain'' = Some ''WESCO'' \<and> b ''address1'' = Some ''115 S Main St''"

definition at_forbidden_address :: "branch \<Rightarrow> bool" where
  "at_forbidden_address b \<longleftrightarrow>
     (case b ''address1'' of
        None \<Rightarrow> False
      | Some a \<Rightarrow> list_ex (\<lambda>addr. contains addr a) invalid_addresses)"

subsection \<open>Sample data\<close>

definition denver_branch :: branch where
  "denver_branch = map_of [(''name'', ''KVA Supply Co''), (''chain'', ''WESCO''),
     (''city'', ''Denver''), (''address1'', ''11198 E 45th Ave'')]"

definition pueblo_branch :: branch where
  "pueblo_branch = map_of [(''name'', ''WESCO''), (''chain'', ''WESCO''),
     (''city'', ''Pueblo''), (''address1'', ''115 S Main St'')]"

definition boulder_branch :: branch where
  "boulder_branch = map_of [(''name'', ''WESCO''), (''chain'', ''WESCO''),
     (''city'', ''Boulder''), (''address1'', ''2500 Pearl St'')]"

definition jason_branch :: branch where
  "jason_branch = map_of [(''name'', ''WESCO''), (''chain'', ''WESCO''),
     (''city'', ''Denver''), (''address1'', ''756 S Jason St'')]"

text \<open>A record that passes the filter and has no \<^verbatim>\<open>address1\<close>.\<close>

definition lacking_address :: "string \<Rightarrow> branch" where
  "lacking_address c = map_of [(''name'', ''WESCO''), (''chain'', ''WESCO''), (''city'', c)]"

text \<open>The directory with \<^verbatim>\<open>denver-metro.json\<close> as its only file.\<close>

definition metro_only :: "branch list \<Rightarrow> filesystem" where
  "metro_only bs =
     \<lparr>dir_exists = True,
      file_at = (\<lambda>p. if p = ''supplyfind-updates/us/co/denver-metro.json''
                      then Some (Document (Some bs)) else None)\<rparr>"

definition no_files :: filesystem where
  "no_files = \<lparr>dir_exists = True, file_at = (\<lambda>p. None)\<rparr>"

definition no_directory :: filesystem where
  "no_directory = \<lparr>dir_exists = False, file_at = (\<lambda>p. None)\<rparr>"

subsection \<open>Reading the console\<close>

text \<open>
  The checklist of lines 103 to 183 has six items: the number of unique locations, the
  Denver entry, the Pueblo entry, and one item for each removed address. Each PASS, FAIL
  or WARNING line of the console reports one of them.
\<close>

datatype item = Unique_item | Denver_item | Pueblo_item | Removed_item string

datatype verdict = Passed | Warned | Failed

definition report_of :: "line \<Rightarrow> (item \<times> verdict) option" where
  "report_of l =
     (case l of
        Fail_unique n \<Rightarrow> Some (Unique_item, Failed)
      | Pass_unique \<Rightarrow> Some (Unique_item, Passed)
      | Fail_denver_missing n \<Rightarrow> Some (Denver_item, Failed)
      | Fail_denver_inconsistent \<Rightarrow> Some (Denver_item, Failed)
      | Fail_denver_name v \<Rightarrow> Some (Denver_item, Failed)
      | Fail_denver_chain v \<Rightarrow> Some (Denver_item, Failed)
      | Warn_denver_operating_name \<Rightarrow> Some (Denver_item, Warned)
      | Pass_denver \<Rightarrow> Some (Denver_item, Passed)
      | Fail_pueblo_count n \<Rightarrow> Some (Pueblo_item, Failed)
      | Fail_pueblo_chain v \<Rightarrow> Some (Pueblo_item, Failed)
      | Pass_pueblo \<Rightarrow> Some (Pueblo_item, Passed)
      | Fail_removed a \<Rightarrow> Some (Removed_item a, Failed)
      | Pass_removed a \<Rightarrow> Some (Removed_item a, Passed)
      | _ \<Rightarrow> None)"

definition reports :: "line list \<Rightarrow> (item \<times> verdict) list" where
  "reports c = List.map_filter report_of c"

text \<open>
  The verdict each item calls for on a list of matched entries, read off the conditions of
  lines 105 to 183, and the checklist as the run has to report it.
\<close>

definition unique_verdict :: "matched_entry list \<Rightarrow> verdict" where
  "unique_verdict es = (if length (unique_locations es) = 2 then Passed else Failed)"

definition denver_verdict :: "matched_entry list \<Rightarrow> verdict" where
  "denver_verdict es =
     (if denver_kva es = [] then Failed
      else if \<not> list_all denver_consistent (denver_kva es) then Failed
      else if operating_name (hd (denver_kva es)) \<noteq> Some ''KVA Supply Co'' then Warned
      else Passed)"

definition pueblo_verdict :: "matched_entry list \<Rightarrow> verdict" where
  "pueblo_verdict es =
     (if length (pueblo_wesco es) = 1 \<and> chain (hd (pueblo_wesco es)) = Some ''WESCO''
      then Passed else Failed)"

definition removed_verdict :: "string \<Rightarrow> matched_entry list \<Rightarrow> verdict" where
  "removed_verdict addr es = (if filter (address_contains addr) es = [] then Passed else Failed)"

definition checklist :: "matched_entry list \<Rightarrow> (item \<times> verdict) list" where
  "checklist es =
     [(Unique_item, unique_verdict es), (Denver_item, denver_verdict es),
      (Pueblo_item, pueblo_verdict es)]
     @ map (\<lambda>addr. (Removed_item addr, removed_verdict addr es)) invalid_addresses"

subsection \<open>Two more readings of a run\<close>

text \<open>
  The two lines of the directory error, and the console that a step leaves behind whether
  it ends or raises.
\<close>

definition env_error :: "line \<Rightarrow> bool" where
  "env_error l \<longleftrightarrow> l = Err_no_directory \<or> l = Hint_repository_root"

definition outcome_console :: "outcome \<Rightarrow> line list" where
  "outcome_console r = (case r of Inl (err, c) \<Rightarrow> c | Inr st \<Rightarrow> console st)"

section \<open>Properties\<close>

subsection \<open>Substrings and the filter\<close>

lemma contains_sublist: "contains sub s = sublist sub s"
  by (induction s) (simp_all add: sublist_Cons_right)

lemma contains_iff: "contains sub s \<longleftrightarrow> (\<exists>p q. s = p @ sub @ q)"
  by (simp add: contains_sublist sublist_def)

text \<open>
  Claim C3. A branch record is among the matches of a file exactly when it is a record of
  the file and the text WESCO occurs in its chain or in its name, or the text KVA occurs
  in its name, a chain or name that is absent counting as the empty string. Occurrence is
  of the very characters, so it is sensitive to case.
\<close>

theorem filter_membership:
  "b \<in> set (wesco_entries branches) \<longleftrightarrow>
     b \<in> set branches \<and>
     ((\<exists>p q. (case b ''chain'' of None \<Rightarrow> [] | Some v \<Rightarrow> v) = p @ ''WESCO'' @ q)
      \<or> (\<exists>p q. (case b ''name'' of None \<Rightarrow> [] | Some v \<Rightarrow> v) = p @ ''WESCO'' @ q)
      \<or> (\<exists>p q. (case b ''name'' of None \<Rightarrow> [] | Some v \<Rightarrow> v) = p @ ''KVA'' @ q))"
  by (simp add: wesco_entries_def is_wesco_def get_default_def contains_iff)

lemma filter_case_sensitive:
  "\<not> is_wesco (map_of [(''name'', ''wesco''), (''chain'', ''Kva'')])"
  by (simp add: is_wesco_def get_default_def)

subsection \<open>Deduplication\<close>

lemma map_of_dedup:
  "map_of (dedup es d) k =
     (case map_of d k of Some v \<Rightarrow> Some v | None \<Rightarrow> find (\<lambda>e. location_key e = k) es)"
proof (induction es arbitrary: d)
  case Nil
  show ?case by (simp split: option.split)
next
  case (Cons e es)
  show ?case
    by (auto simp: Cons.IH map_add_def split: option.splits)
qed

lemma keys_dedup:
  "fst ` set (dedup es d) = fst ` set d \<union> location_key ` set es"
  by (induction es arbitrary: d) (auto simp: map_of_eq_None_iff)

lemma distinct_dedup:
  "distinct (map fst d) \<Longrightarrow> distinct (map fst (dedup es d))"
  by (induction es arbitrary: d) (auto simp: map_of_eq_None_iff)

lemma dedup_append:
  "dedup (es @ es') d = dedup es' (dedup es d)"
  by (induction es arbitrary: d) simp_all

text \<open>
  Claim C4. The key of an entry is its city, a hyphen and its address, each written as
  Python prints it (\<^verbatim>\<open>None\<close> for a value that is absent). For every sequence of
  matched entries, the dictionary of unique locations maps a key to the first entry of the
  sequence that has this key; the number of its items is the number of distinct keys of
  the sequence; and one more entry at the end changes the dictionary only when its key is
  new, in which case it is added after the others.
\<close>

theorem dedup_first_wins:
  "(let key = (\<lambda>e. (case city e of None \<Rightarrow> ''None'' | Some c \<Rightarrow> c) @ ''-''
                    @ (case address e of None \<Rightarrow> ''None'' | Some a \<Rightarrow> a))
    in map_of (unique_locations es) k = find (\<lambda>e. key e = k) es
       \<and> length (unique_locations es) = card (key ` set es)
       \<and> unique_locations (es @ [e]) =
           (if key e \<in> key ` set es then unique_locations es
            else unique_locations es @ [(key e, e)]))"
proof -
  have key: "(\<lambda>e. (case city e of None \<Rightarrow> ''None'' | Some c \<Rightarrow> c) @ ''-''
                 @ (case address e of None \<Rightarrow> ''None'' | Some a \<Rightarrow> a)) = location_key"
    by (auto simp: fun_eq_iff location_key_def split: option.splits)
  have 1: "map_of (unique_locations es) k = find (\<lambda>e. location_key e = k) es"
    by (simp add: unique_locations_def map_of_dedup)
  have "distinct (map fst (unique_locations es))"
    by (simp add: unique_locations_def distinct_dedup)
  from distinct_card [OF this]
  have "length (unique_locations es) = card (fst ` set (unique_locations es))"
    by simp
  also have "fst ` set (unique_locations es) = location_key ` set es"
    using keys_dedup [of es "[]"] by (simp add: unique_locations_def)
  finally have 2: "length (unique_locations es) = card (location_key ` set es)" .
  have "map_of (dedup es []) (location_key e) = None
          \<longleftrightarrow> location_key e \<notin> location_key ` set es"
    using keys_dedup [of es "[]"] by (simp add: map_of_eq_None_iff)
  then have 3: "unique_locations (es @ [e]) =
       (if location_key e \<in> location_key ` set es then unique_locations es
        else unique_locations es @ [(location_key e, e)])"
    by (simp add: unique_locations_def dedup_append)
  from 1 2 3 show ?thesis
    unfolding Let_def key by blast
qed

subsection \<open>State and console of the single steps\<close>

lemma print_simps [simp]:
  "all_wesco_entries (print l st) = all_wesco_entries st"
  "success (print l st) = success st"
  "total_branches (print l st) = total_branches st"
  "console (print l st) = console st @ [l]"
  "all_wesco_entries (prints ls st) = all_wesco_entries st"
  "success (prints ls st) = success st"
  "total_branches (prints ls st) = total_branches st"
  "console (prints ls st) = console st @ ls"
  "all_wesco_entries (fail st) = all_wesco_entries st"
  "success (fail st) = False"
  "total_branches (fail st) = total_branches st"
  "console (fail st) = console st"
  by (simp_all add: print_def prints_def fail_def)

lemma reports_append: "reports (c @ d) = reports c @ reports d"
  by (simp add: reports_def List.map_filter_def)

lemma reports_Nil [simp]: "reports [] = []"
  by (simp add: reports_def List.map_filter_simps)

lemma reports_single:
  "reports [l] = (case report_of l of None \<Rightarrow> [] | Some r \<Rightarrow> [r])"
  by (simp add: reports_def List.map_filter_simps split: option.split)

lemma reports_Cons: "reports (l # c) = reports [l] @ reports c"
  using reports_append [of "[l]" c] by simp

lemma judge_denver_frame [simp]:
  "all_wesco_entries (judge_denver dk st) = all_wesco_entries st"
  by (simp add: judge_denver_def Let_def)

lemma judge_denver_success:
  "success (judge_denver dk st) \<longleftrightarrow> success st \<and> dk \<noteq> [] \<and> list_all denver_consistent dk"
  by (cases dk) (auto simp: judge_denver_def Let_def denver_consistent_def)

lemma judge_pueblo_frame [simp]:
  "all_wesco_entries (judge_pueblo pw st) = all_wesco_entries st"
  by (simp add: judge_pueblo_def Let_def)

lemma judge_pueblo_success:
  "success (judge_pueblo pw st) \<longleftrightarrow>
     success st \<and> length pw = 1 \<and> chain (hd pw) = Some ''WESCO''"
  by (auto simp: judge_pueblo_def Let_def)

lemma check_unique_frame [simp]:
  "all_wesco_entries (check_unique n st) = all_wesco_entries st"
  by (simp add: check_unique_def)

lemma check_unique_success:
  "success (check_unique n st) \<longleftrightarrow> success st \<and> n = 2"
  by (simp add: check_unique_def)

lemma summarise_entries [simp]:
  "all_wesco_entries (summarise st) = all_wesco_entries st"
  by (simp add: summarise_def)

lemma summarise_reports [simp]:
  "reports (console (summarise st)) = reports (console st)"
  by (simp add: summarise_def reports_append reports_Cons [of _ "_ # _"] reports_single
      report_of_def)

lemma banner_reports [simp]:
  "reports (console (banner st)) = reports (console st)"
  by (simp add: banner_def reports_append reports_Cons [of _ "_ # _"] reports_single
      report_of_def)

subsection \<open>The checks when every matched entry has an address\<close>

lemma filter_e_total:
  "list_all (\<lambda>x. p x = Inr (q x)) xs \<Longrightarrow> filter_e p xs = Inr (filter q xs)"
  by (induction xs) simp_all

lemma denver_filter:
  "list_all has_address es \<Longrightarrow> filter_e is_denver_kva es = Inr (denver_kva es)"
  unfolding denver_kva_def
  by (rule filter_e_total)
     (auto simp: list_all_iff has_address_def is_denver_kva_def address_contains_def)

lemma pueblo_filter:
  "list_all has_address es \<Longrightarrow> filter_e is_pueblo_wesco es = Inr (pueblo_wesco es)"
  unfolding pueblo_wesco_def
  by (rule filter_e_total)
     (auto simp: list_all_iff has_address_def is_pueblo_wesco_def address_contains_def)

lemma removed_filter:
  "list_all has_address es \<Longrightarrow>
     filter_e (\<lambda>e. py_in addr (address e)) es = Inr (filter (address_contains addr) es)"
  by (rule filter_e_total) (auto simp: list_all_iff has_address_def address_contains_def)

lemma check_unique_reports:
  "reports (console (check_unique (length (unique_locations es)) st))
     = reports (console st) @ [(Unique_item, unique_verdict es)]"
  by (simp add: check_unique_def unique_verdict_def reports_append reports_Cons [of _ "_ # _"]
      reports_single report_of_def)

lemma judge_denver_reports:
  "reports (console (judge_denver (denver_kva es) st))
     = reports (console st) @ [(Denver_item, denver_verdict es)]"
proof (cases "denver_kva es")
  case Nil
  then show ?thesis
    by (simp add: judge_denver_def denver_verdict_def reports_append reports_single report_of_def)
next
  case (Cons e dk)
  then show ?thesis
    by (auto simp: judge_denver_def denver_verdict_def Let_def denver_consistent_def
        reports_append reports_Cons [of _ "_ # _"] reports_single report_of_def)
qed

lemma judge_pueblo_reports:
  "reports (console (judge_pueblo (pueblo_wesco es) st))
     = reports (console st) @ [(Pueblo_item, pueblo_verdict es)]"
  by (auto simp: judge_pueblo_def pueblo_verdict_def Let_def
      reports_append reports_Cons [of _ "_ # _"] reports_single report_of_def)

lemma check_removed_reports:
  "list_all has_address (all_wesco_entries st) \<Longrightarrow>
     \<exists>st'. check_removed addrs st = Inr st'
       \<and> reports (console st') =
           reports (console st)
           @ map (\<lambda>addr. (Removed_item addr, removed_verdict addr (all_wesco_entries st))) addrs
       \<and> (success st' \<longleftrightarrow>
            success st \<and> list_all (\<lambda>a. removed_verdict a (all_wesco_entries st) \<noteq> Failed) addrs)"
proof (induction addrs arbitrary: st)
  case Nil
  show ?case by simp
next
  case (Cons a addrs)
  let ?st1 = "if filter (address_contains a) (all_wesco_entries st) \<noteq> []
              then fail (print (Fail_removed a) st) else print (Pass_removed a) st"
  have e: "all_wesco_entries ?st1 = all_wesco_entries st" by simp
  with Cons.prems have "list_all has_address (all_wesco_entries ?st1)" by simp
  from Cons.IH [OF this] obtain st' where
    "check_removed addrs ?st1 = Inr st'"
    "reports (console st') =
       reports (console ?st1)
       @ map (\<lambda>addr. (Removed_item addr, removed_verdict addr (all_wesco_entries ?st1))) addrs"
    "success st' \<longleftrightarrow> success ?st1 \<and>
       list_all (\<lambda>a. removed_verdict a (all_wesco_entries ?st1) \<noteq> Failed) addrs"
    by blast
  with Cons.prems e show ?case
    by (auto simp: removed_filter removed_verdict_def reports_append reports_single report_of_def)
qed

text \<open>
  With an address in every matched entry the validation runs to its end: the console gets
  one report for each of the six items, in their order, with the verdict the data call
  for, and \<^verbatim>\<open>success\<close> ends as the conjunction: no item failed.
\<close>

lemma validate_reports:
  assumes "list_all has_address (all_wesco_entries st)"
  shows "\<exists>st'. validate st = Inr st'
     \<and> reports (console st') = reports (console st) @ checklist (all_wesco_entries st)
     \<and> (success st' \<longleftrightarrow> list_all (\<lambda>r. snd r \<noteq> Failed) (checklist (all_wesco_entries st)))"
proof -
  let ?es = "all_wesco_entries st"
  let ?st1 = "check_unique (length (unique_locations ?es)) (st\<lparr>success := True\<rparr>)"
  let ?st2 = "judge_denver (denver_kva ?es) ?st1"
  let ?st3 = "judge_pueblo (pueblo_wesco ?es) ?st2"
  let ?st4 = "prints [Blank, Title_removed] ?st3"
  have e4: "all_wesco_entries ?st4 = ?es" by simp
  with assms have "list_all has_address (all_wesco_entries ?st4)" by simp
  from check_removed_reports [OF this, of invalid_addresses] obtain st' where
    r: "check_removed invalid_addresses ?st4 = Inr st'"
    and c: "reports (console st') =
       reports (console ?st4)
       @ map (\<lambda>addr. (Removed_item addr, removed_verdict addr ?es)) invalid_addresses"
    and s: "success st' \<longleftrightarrow> success ?st4 \<and>
       list_all (\<lambda>a. removed_verdict a ?es \<noteq> Failed) invalid_addresses"
    unfolding e4 by blast
  have v: "validate st = Inr st'"
    using assms r
    by (simp add: validate_def Let_def check_denver_def check_pueblo_def
        denver_filter pueblo_filter)
  have c4: "reports (console ?st4) =
      reports (console st) @ [(Unique_item, unique_verdict ?es),
        (Denver_item, denver_verdict ?es), (Pueblo_item, pueblo_verdict ?es)]"
    using check_unique_reports [of ?es "st\<lparr>success := True\<rparr>"]
    by (simp add: judge_pueblo_reports judge_denver_reports reports_append
        reports_Cons [of _ "_ # _"] reports_single report_of_def)
  have s4: "success ?st4 \<longleftrightarrow>
      unique_verdict ?es \<noteq> Failed \<and> denver_verdict ?es \<noteq> Failed \<and> pueblo_verdict ?es \<noteq> Failed"
    by (auto simp: judge_pueblo_success judge_denver_success check_unique_success
        unique_verdict_def denver_verdict_def pueblo_verdict_def)
  from v c s c4 s4 show ?thesis
    by (simp add: checklist_def list_all_iff)
qed

subsection \<open>The checks when a matched entry has no address\<close>

lemma filter_e_error_source:
  "filter_e p xs = Inl err \<Longrightarrow> list_ex (\<lambda>x. p x = Inl err) xs"
  by (induction xs) (auto split: sum.splits)

lemma filter_e_without_address:
  "\<not> list_all has_address es \<Longrightarrow> filter_e (\<lambda>e. py_in addr (address e)) es = Inl TypeError"
proof (induction es)
  case Nil
  then show ?case by simp
next
  case (Cons e es)
  show ?case
  proof (cases "address e")
    case None
    then show ?thesis by simp
  next
    case (Some a)
    with Cons show ?thesis by (simp add: has_address_def)
  qed
qed

lemma check_denver_error:
  "check_denver st = Inl (err, c) \<Longrightarrow> err = TypeError"
  by (auto simp: check_denver_def is_denver_kva_def list_ex_iff split: sum.splits if_splits
      dest!: filter_e_error_source elim: py_in.elims)

lemma check_pueblo_error:
  "check_pueblo st = Inl (err, c) \<Longrightarrow> err = TypeError"
  by (auto simp: check_pueblo_def is_pueblo_wesco_def list_ex_iff split: sum.splits if_splits
      dest!: filter_e_error_source elim: py_in.elims)

lemma check_denver_entries:
  "check_denver st = Inr st' \<Longrightarrow> all_wesco_entries st' = all_wesco_entries st"
  by (auto simp: check_denver_def split: sum.splits)

lemma check_pueblo_entries:
  "check_pueblo st = Inr st' \<Longrightarrow> all_wesco_entries st' = all_wesco_entries st"
  by (auto simp: check_pueblo_def split: sum.splits)

text \<open>
  A matched entry without address ends the validation with a TypeError: in the Denver or
  the Pueblo comprehension when the entry has that city, and in the comprehension of the
  first removed address at the latest.
\<close>

lemma validate_without_address:
  assumes "\<not> list_all has_address (all_wesco_entries st)"
  shows "\<exists>c. validate st = Inl (TypeError, c)"
proof -
  let ?st1 = "check_unique (length (unique_locations (all_wesco_entries st))) (st\<lparr>success := True\<rparr>)"
  have e1: "all_wesco_entries ?st1 = all_wesco_entries st" by simp
  show ?thesis
  proof (cases "check_denver ?st1")
    case (Inl x)
    then show ?thesis
      by (cases x) (auto simp: validate_def Let_def dest: check_denver_error)
  next
    case d: (Inr st2)
    show ?thesis
    proof (cases "check_pueblo st2")
      case (Inl x)
      with d show ?thesis
        by (cases x) (auto simp: validate_def Let_def dest: check_pueblo_error)
    next
      case p: (Inr st3)
      from check_denver_entries [OF d] check_pueblo_entries [OF p] e1
      have "all_wesco_entries (prints [Blank, Title_removed] st3) = all_wesco_entries st"
        by simp
      with assms d p show ?thesis
        by (simp add: validate_def Let_def invalid_addresses_def filter_e_without_address)
    qed
  qed
qed

subsection \<open>What the scan collects\<close>

lemma record_entries_entries:
  "all_wesco_entries (record_entries p bs st) = all_wesco_entries st @ map (entry_of p) bs"
  by (induction bs arbitrary: st) simp_all

lemma record_entries_reports:
  "reports (console (record_entries p bs st)) = reports (console st)"
  by (induction bs arbitrary: st)
     (simp_all add: reports_append reports_Cons [of _ "_ # _"] reports_single report_of_def)

lemma load_file_entries:
  "all_wesco_entries (load_file p d st) =
     all_wesco_entries st @ map (entry_of p) (wesco_entries (case d of None \<Rightarrow> [] | Some bs \<Rightarrow> bs))"
  by (simp add: load_file_def Let_def record_entries_entries)

lemma load_file_reports:
  "reports (console (load_file p d st)) = reports (console st)"
  by (simp add: load_file_def Let_def record_entries_reports reports_append
      reports_Cons [of _ "_ # _"] reports_single report_of_def)

lemma load_file_empty: "load_file p (Some []) st = st"
  by (simp add: load_file_def wesco_entries_def)

lemma scan_files_reports:
  "scan_files fs ps st = Inr st' \<Longrightarrow> reports (console st') = reports (console st)"
  by (induction ps arbitrary: st)
     (auto simp: load_file_reports split: option.splits json_file.splits)

lemma scan_files_entries:
  "\<forall>p\<in>set ps. file_at fs p \<noteq> Some Malformed \<Longrightarrow>
     \<exists>st'. scan_files fs ps st = Inr st'
       \<and> all_wesco_entries st' =
           all_wesco_entries st @ concat (map (\<lambda>p. map (entry_of p) (matches_at fs p)) ps)"
proof (induction ps arbitrary: st)
  case Nil
  show ?case by simp
next
  case (Cons p ps)
  show ?case
  proof (cases "file_at fs p")
    case None
    with Cons.IH [of st] Cons.prems show ?thesis by (simp add: matches_at_def)
  next
    case (Some f)
    with Cons.prems obtain d where d: "file_at fs p = Some (Document d)"
      by (cases f) auto
    from Cons.IH [of "load_file p d st"] Cons.prems d show ?thesis
      by (cases d) (auto simp: matches_at_def load_file_entries wesco_entries_def)
  qed
qed

lemma map_zip_same_path:
  "map (\<lambda>(q, b). g q b) (zip (replicate (length xs) p) xs) = map (g p) xs"
  by (induction xs) simp_all

lemma entries_of_matches:
  "concat (map f ps) = bs \<Longrightarrow>
     \<exists>qs. length qs = length bs
       \<and> concat (map (\<lambda>p. map (entry_of p) (f p)) ps) = map (\<lambda>(q, b). entry_of q b) (zip qs bs)"
proof (induction ps arbitrary: bs)
  case Nil
  then show ?case by simp
next
  case (Cons p ps)
  from Cons.IH [OF refl] obtain qs where
    qs: "length qs = length (concat (map f ps))"
      "concat (map (\<lambda>p. map (entry_of p) (f p)) ps) =
         map (\<lambda>(q, b). entry_of q b) (zip qs (concat (map f ps)))"
    by blast
  with Cons.prems show ?case
    by (intro exI [of _ "replicate (length (f p)) p @ qs"]) (auto simp: map_zip_same_path)
qed

lemma scan_files_all_missing:
  "\<forall>p\<in>set ps. file_at fs p = None \<Longrightarrow> scan_files fs ps st = Inr st"
  by (induction ps) simp_all

lemma scan_files_skip:
  "file_at fs p = None \<Longrightarrow> scan_files fs (ps @ p # qs) st = scan_files fs (ps @ qs) st"
  by (induction ps arbitrary: st) (simp_all split: option.split json_file.split)

lemma scan_files_empty_document:
  "file_at fs p = None \<Longrightarrow>
     scan_files (fs\<lparr>file_at := (file_at fs)(p \<mapsto> Document (Some []))\<rparr>) ps st
       = scan_files fs ps st"
  by (induction ps arbitrary: st)
     (simp_all add: load_file_empty split: option.split json_file.split)

subsection \<open>The whole run\<close>

text \<open>
  When the scan ends with an address in every matched entry, the run reports the six
  items, returns the conjunction of their verdicts and exits with 0 or 1 accordingly.
\<close>

lemma run_reports:
  assumes dir: "dir_exists fs"
    and scan: "scan_files fs files_to_check
                 (prints [Rule, Title_verification, Rule, Blank] initial) = Inr st"
    and addr: "list_all has_address (all_wesco_entries st)"
  shows "reports (fst (verify_wesco_cleanup fs)) = checklist (all_wesco_entries st)
     \<and> snd (verify_wesco_cleanup fs)
         = Inr (list_all (\<lambda>r. snd r \<noteq> Failed) (checklist (all_wesco_entries st)))
     \<and> exit_status fs
         = (if list_all (\<lambda>r. snd r \<noteq> Failed) (checklist (all_wesco_entries st)) then 0 else 1)"
proof -
  from addr have "list_all has_address (all_wesco_entries (summarise st))" by simp
  from validate_reports [OF this] obtain st' where
    v: "validate (summarise st) = Inr st'"
    and c: "reports (console st') = reports (console st) @ checklist (all_wesco_entries st)"
    and s: "success st' \<longleftrightarrow> list_all (\<lambda>r. snd r \<noteq> Failed) (checklist (all_wesco_entries st))"
    by auto
  from scan_files_reports [OF scan] have "reports (console st) = []"
    by (simp add: initial_def reports_Cons [of _ "_ # _"] reports_single report_of_def)
  with dir scan v c s show ?thesis
    by (simp add: verify_wesco_cleanup_def exit_status_def)
qed

text \<open>When it ends with a matched entry that has none, the run raises TypeError.\<close>

lemma run_without_address:
  assumes dir: "dir_exists fs"
    and scan: "scan_files fs files_to_check
                 (prints [Rule, Title_verification, Rule, Blank] initial) = Inr st"
    and addr: "\<not> list_all has_address (all_wesco_entries st)"
  shows "snd (verify_wesco_cleanup fs) = Inl TypeError \<and> exit_status fs = 1"
proof -
  from addr have "\<not> list_all has_address (all_wesco_entries (summarise st))" by simp
  from validate_without_address [OF this] obtain c where
    "validate (summarise st) = Inl (TypeError, c)" by blast
  with dir scan show ?thesis
    by (simp add: verify_wesco_cleanup_def exit_status_def)
qed

subsection \<open>The console of a run that may raise\<close>

lemma outcome_console_simps [simp]:
  "outcome_console (Inl (err, c)) = c"
  "outcome_console (Inr st) = console st"
  by (simp_all add: outcome_console_def)

lemma env_error_append:
  "filter env_error (c @ d) = filter env_error c @ filter env_error d"
  by simp

lemma record_entries_env:
  "filter env_error (console (record_entries p bs st)) = filter env_error (console st)"
  by (induction bs arbitrary: st) (simp_all add: env_error_def)

lemma load_file_env:
  "filter env_error (console (load_file p d st)) = filter env_error (console st)"
  by (simp add: load_file_def Let_def record_entries_env env_error_def)

lemma scan_files_env:
  "filter env_error (outcome_console (scan_files fs ps st)) = filter env_error (console st)"
  by (induction ps arbitrary: st)
     (auto simp: load_file_env split: option.splits json_file.splits)

lemma check_unique_env:
  "filter env_error (console (check_unique n st)) = filter env_error (console st)"
  by (simp add: check_unique_def env_error_def)

lemma judge_denver_env:
  "filter env_error (console (judge_denver dk st)) = filter env_error (console st)"
  by (simp add: judge_denver_def Let_def env_error_def)

lemma judge_pueblo_env:
  "filter env_error (console (judge_pueblo pw st)) = filter env_error (console st)"
  by (simp add: judge_pueblo_def Let_def env_error_def)

lemma check_denver_env:
  "filter env_error (outcome_console (check_denver st)) = filter env_error (console st)"
  by (simp add: check_denver_def judge_denver_env split: sum.split)

lemma check_pueblo_env:
  "filter env_error (outcome_console (check_pueblo st)) = filter env_error (console st)"
  by (simp add: check_pueblo_def judge_pueblo_env split: sum.split)

lemma check_removed_env:
  "filter env_error (outcome_console (check_removed addrs st)) = filter env_error (console st)"
  by (induction addrs arbitrary: st) (auto simp: env_error_def split: sum.splits)

lemma validate_env:
  "filter env_error (outcome_console (validate st)) = filter env_error (console st)"
proof -
  let ?st1 = "check_unique (length (unique_locations (all_wesco_entries st))) (st\<lparr>success := True\<rparr>)"
  have 1: "filter env_error (console ?st1) = filter env_error (console st)"
    by (simp add: check_unique_env)
  show ?thesis
  proof (cases "check_denver ?st1")
    case (Inl x)
    with check_denver_env [of ?st1] 1 show ?thesis
      by (simp add: validate_def Let_def)
  next
    case d: (Inr st2)
    with check_denver_env [of ?st1] 1
    have 2: "filter env_error (console st2) = filter env_error (console st)" by simp
    show ?thesis
    proof (cases "check_pueblo st2")
      case (Inl x)
      with check_pueblo_env [of st2] 2 d show ?thesis
        by (simp add: validate_def Let_def)
    next
      case p: (Inr st3)
      with check_pueblo_env [of st2] 2
      have 3: "filter env_error (console st3) = filter env_error (console st)" by simp
      from check_removed_env [of invalid_addresses "prints [Blank, Title_removed] st3"] 3 d p
      show ?thesis
        by (simp add: validate_def Let_def env_error_def)
    qed
  qed
qed

lemma summarise_env:
  "filter env_error (console (summarise st)) = filter env_error (console st)"
  by (simp add: summarise_def env_error_def)

lemma banner_env:
  "filter env_error (console (banner st)) = filter env_error (console st)"
  by (simp add: banner_def env_error_def)

lemma run_env:
  assumes "dir_exists fs"
  shows "filter env_error (fst (verify_wesco_cleanup fs)) = []"
proof -
  let ?st0 = "prints [Rule, Title_verification, Rule, Blank] initial"
  have 0: "filter env_error (console ?st0) = []"
    by (simp add: initial_def env_error_def)
  show ?thesis
  proof (cases "scan_files fs files_to_check ?st0")
    case (Inl x)
    with scan_files_env [of fs files_to_check ?st0] 0 assms show ?thesis
      by (cases x) (simp add: verify_wesco_cleanup_def)
  next
    case s: (Inr st)
    with scan_files_env [of fs files_to_check ?st0] 0
    have 1: "filter env_error (console (summarise st)) = []"
      by (simp add: summarise_env)
    show ?thesis
    proof (cases "validate (summarise st)")
      case (Inl x)
      with validate_env [of "summarise st"] 1 s assms show ?thesis
        by (cases x) (simp add: verify_wesco_cleanup_def)
    next
      case (Inr st')
      with validate_env [of "summarise st"] 1 s assms show ?thesis
        by (simp add: verify_wesco_cleanup_def banner_env)
    qed
  qed
qed

lemma reports_prefix: "prefix c c' \<Longrightarrow> prefix (reports c) (reports c')"
  by (auto simp: prefix_def reports_append)

lemma judge_denver_prefix: "prefix (console st) (console (judge_denver dk st))"
  by (simp add: judge_denver_def Let_def)

lemma judge_pueblo_prefix: "prefix (console st) (console (judge_pueblo pw st))"
  by (simp add: judge_pueblo_def Let_def)

lemma check_denver_prefix: "prefix (console st) (outcome_console (check_denver st))"
  by (simp add: check_denver_def judge_denver_prefix split: sum.split)

lemma check_pueblo_prefix: "prefix (console st) (outcome_console (check_pueblo st))"
  by (simp add: check_pueblo_def judge_pueblo_prefix split: sum.split)

lemma check_removed_prefix: "prefix (console st) (outcome_console (check_removed addrs st))"
proof (induction addrs arbitrary: st)
  case Nil
  show ?case by simp
next
  case (Cons a addrs)
  show ?case
  proof (cases "filter_e (\<lambda>e. py_in a (address e)) (all_wesco_entries st)")
    case (Inl err)
    then show ?thesis by simp
  next
    case (Inr found)
    let ?st1 = "if found \<noteq> [] then fail (print (Fail_removed a) st) else print (Pass_removed a) st"
    have "prefix (console st) (console ?st1)" by simp
    also have "prefix (console ?st1) (outcome_console (check_removed addrs ?st1))"
      by (rule Cons.IH)
    finally show ?thesis using Inr by simp
  qed
qed

lemma validate_prefix:
  "prefix (console (check_unique (length (unique_locations (all_wesco_entries st)))
             (st\<lparr>success := True\<rparr>)))
     (outcome_console (validate st))"
proof -
  let ?st1 = "check_unique (length (unique_locations (all_wesco_entries st))) (st\<lparr>success := True\<rparr>)"
  show ?thesis
  proof (cases "check_denver ?st1")
    case (Inl x)
    with check_denver_prefix [of ?st1] show ?thesis
      by (simp add: validate_def Let_def)
  next
    case d: (Inr st2)
    with check_denver_prefix [of ?st1] have 2: "prefix (console ?st1) (console st2)" by simp
    show ?thesis
    proof (cases "check_pueblo st2")
      case (Inl x)
      with check_pueblo_prefix [of st2] 2 d show ?thesis
        by (simp add: validate_def Let_def)
    next
      case p: (Inr st3)
      with check_pueblo_prefix [of st2] have "prefix (console st2) (console st3)" by simp
      with 2 have "prefix (console ?st1) (console st3)" by (rule prefix_order.trans)
      also have "prefix (console st3) (console (prints [Blank, Title_removed] st3))" by simp
      also have "prefix (console (prints [Blank, Title_removed] st3))
          (outcome_console (check_removed invalid_addresses (prints [Blank, Title_removed] st3)))"
        by (rule check_removed_prefix)
      finally show ?thesis using d p by (simp add: validate_def Let_def)
    qed
  qed
qed

text \<open>Once the scan has ended without exception the validation starts.\<close>

lemma run_starts_validation:
  assumes dir: "dir_exists fs"
    and scan: "scan_files fs files_to_check
                 (prints [Rule, Title_verification, Rule, Blank] initial) = Inr st"
  shows "prefix [(Unique_item, unique_verdict (all_wesco_entries st))]
           (reports (fst (verify_wesco_cleanup fs)))"
proof -
  let ?st1 = "check_unique (length (unique_locations (all_wesco_entries (summarise st))))
                ((summarise st)\<lparr>success := True\<rparr>)"
  from scan_files_reports [OF scan] have "reports (console st) = []"
    by (simp add: initial_def reports_Cons [of _ "_ # _"] reports_single report_of_def)
  then have 1: "reports (console ?st1) = [(Unique_item, unique_verdict (all_wesco_entries st))]"
    using check_unique_reports [of "all_wesco_entries st" "(summarise st)\<lparr>success := True\<rparr>"]
    by simp
  have "prefix (console ?st1) (fst (verify_wesco_cleanup fs))"
  proof (cases "validate (summarise st)")
    case (Inl x)
    with validate_prefix [of "summarise st"] dir scan show ?thesis
      by (cases x) (simp add: verify_wesco_cleanup_def)
  next
    case (Inr st')
    with validate_prefix [of "summarise st"] have "prefix (console ?st1) (console st')" by simp
    also have "prefix (console st') (console (banner st'))" by (simp add: banner_def)
    finally show ?thesis using dir scan Inr by (simp add: verify_wesco_cleanup_def)
  qed
  from reports_prefix [OF this] 1 show ?thesis by simp
qed

lemma run_prints_unique:
  assumes dir: "dir_exists fs"
    and scan: "scan_files fs files_to_check
                 (prints [Rule, Title_verification, Rule, Blank] initial) = Inr st"
  shows "(if length (unique_locations (all_wesco_entries st)) = 2 then Pass_unique
          else Fail_unique (length (unique_locations (all_wesco_entries st))))
         \<in> set (fst (verify_wesco_cleanup fs))"
proof -
  let ?st1 = "check_unique (length (unique_locations (all_wesco_entries (summarise st))))
                ((summarise st)\<lparr>success := True\<rparr>)"
  have 1: "(if length (unique_locations (all_wesco_entries st)) = 2 then Pass_unique
          else Fail_unique (length (unique_locations (all_wesco_entries st))))
         \<in> set (console ?st1)"
    by (simp add: check_unique_def)
  have "prefix (console ?st1) (fst (verify_wesco_cleanup fs))"
  proof (cases "validate (summarise st)")
    case (Inl x)
    with validate_prefix [of "summarise st"] dir scan show ?thesis
      by (cases x) (simp add: verify_wesco_cleanup_def)
  next
    case (Inr st')
    with validate_prefix [of "summarise st"] have "prefix (console ?st1) (console st')" by simp
    also have "prefix (console st') (console (banner st'))" by (simp add: banner_def)
    finally show ?thesis using dir scan Inr by (simp add: verify_wesco_cleanup_def)
  qed
  from set_mono_prefix [OF this] 1 show ?thesis by blast
qed

subsection \<open>What the scan loads, written out\<close>

lemma record_entries_total:
  "total_branches (record_entries p bs st) = total_branches st"
  by (induction bs arbitrary: st) simp_all

lemma load_file_total:
  "total_branches (load_file p d st) =
     total_branches st + length (case d of None \<Rightarrow> [] | Some bs \<Rightarrow> bs)"
  by (simp add: load_file_def Let_def record_entries_total)

lemma scan_files_loads:
  "\<forall>q\<in>set ps. file_at fs q \<noteq> Some Malformed \<Longrightarrow>
     \<exists>st'. scan_files fs ps st = Inr st'
       \<and> all_wesco_entries st' =
           all_wesco_entries st @ concat (map (\<lambda>q. map (entry_of q) (matches_at fs q)) ps)
       \<and> total_branches st' =
           total_branches st
           + sum_list (map (\<lambda>q. length (case file_at fs q of
                                           Some (Document (Some bs)) \<Rightarrow> bs | _ \<Rightarrow> [])) ps)"
proof (induction ps arbitrary: st)
  case Nil
  show ?case by simp
next
  case (Cons p ps)
  show ?case
  proof (cases "file_at fs p")
    case None
    with Cons.IH [of st] Cons.prems show ?thesis by (simp add: matches_at_def)
  next
    case (Some f)
    with Cons.prems obtain d where d: "file_at fs p = Some (Document d)"
      by (cases f) auto
    from Cons.IH [of "load_file p d st"] Cons.prems d show ?thesis
      by (cases d)
         (auto simp: matches_at_def load_file_entries load_file_total wesco_entries_def)
  qed
qed

lemma loaded_entries_explicit:
  "map (entry_of q) (matches_at fs q) =
     map (\<lambda>b. \<lparr>file_path = drop (length ''supplyfind-updates/'') q, name = b ''name'', chain = b ''chain'',
               city = b ''city'', address = b ''address1'', phone = b ''phone'',
               verified = b ''last_verified'', operating_name = b ''operatingName''\<rparr>)
       (filter (\<lambda>b. sublist ''WESCO'' (case b ''chain'' of None \<Rightarrow> [] | Some v \<Rightarrow> v)
                   \<or> sublist ''WESCO'' (case b ''name'' of None \<Rightarrow> [] | Some v \<Rightarrow> v)
                   \<or> sublist ''KVA'' (case b ''name'' of None \<Rightarrow> [] | Some v \<Rightarrow> v))
          (case file_at fs q of Some (Document (Some bs)) \<Rightarrow> bs | _ \<Rightarrow> []))"
proof -
  have w: "is_wesco = (\<lambda>b. sublist ''WESCO'' (case b ''chain'' of None \<Rightarrow> [] | Some v \<Rightarrow> v)
                   \<or> sublist ''WESCO'' (case b ''name'' of None \<Rightarrow> [] | Some v \<Rightarrow> v)
                   \<or> sublist ''KVA'' (case b ''name'' of None \<Rightarrow> [] | Some v \<Rightarrow> v))"
    by (simp add: fun_eq_iff is_wesco_def get_default_def contains_sublist)
  have e: "entry_of q = (\<lambda>b. \<lparr>file_path = drop (length ''supplyfind-updates/'') q, name = b ''name'', chain = b ''chain'',
               city = b ''city'', address = b ''address1'', phone = b ''phone'',
               verified = b ''last_verified'', operating_name = b ''operatingName''\<rparr>)"
    by (simp add: fun_eq_iff entry_of_def relative_to_def)
  have m: "matches_at fs q =
      filter is_wesco (case file_at fs q of Some (Document (Some bs)) \<Rightarrow> bs | _ \<Rightarrow> [])"
    by (simp add: matches_at_def wesco_entries_def split: option.split json_file.split)
  show ?thesis unfolding m e w ..
qed

lemma missing_directory_run:
  "verify_wesco_cleanup no_directory = ([Err_no_directory, Hint_repository_root], Inr False)
   \<and> exit_status no_directory = 1"
  by (simp add: verify_wesco_cleanup_def exit_status_def no_directory_def)

lemmas sample_defs =
  metro_only_def no_files_def no_directory_def denver_branch_def pueblo_branch_def
  boulder_branch_def jason_branch_def lacking_address_def files_to_check_def base_dir_def

subsection \<open>The data the cleanup is meant to leave\<close>

text \<open>
  Claim C1, as amended. The directory exists, every file that is present parses, and the
  branch records of the present files that pass the filter are two: one Denver record
  named KVA Supply Co of chain WESCO at 11198 E 45th Ave, and one Pueblo record named
  WESCO of chain WESCO at 115 S Main St, in either order. Then the run returns True and
  the process exits with status 0.
\<close>

theorem only_the_two_entries_succeed:
  assumes dir: "dir_exists fs"
    and parse: "\<forall>f\<in>set files_to_check. file_at fs f \<noteq> Some Malformed"
    and two: "present_matches fs = [d, p] \<or> present_matches fs = [p, d]"
    and d: "is_denver_branch d"
    and p: "is_pueblo_branch p"
  shows "snd (verify_wesco_cleanup fs) = Inr True \<and> exit_status fs = 0"
proof -
  let ?st0 = "prints [Rule, Title_verification, Rule, Blank] initial"
  from scan_files_entries [OF parse, of ?st0] obtain st where
    scan: "scan_files fs files_to_check ?st0 = Inr st"
    and es: "all_wesco_entries st =
       concat (map (\<lambda>f. map (entry_of f) (matches_at fs f)) files_to_check)"
    by (auto simp: initial_def)
  from entries_of_matches [of "matches_at fs" files_to_check "present_matches fs"]
  obtain qs where
    len: "length qs = length (present_matches fs)"
    and zip: "all_wesco_entries st = map (\<lambda>(q, b). entry_of q b) (zip qs (present_matches fs))"
    unfolding es present_matches_def by blast
  from two len have "length qs = 2" by auto
  then obtain q1 q2 where qs: "qs = [q1, q2]"
    by (auto simp: numeral_2_eq_2 length_Suc_conv)
  from two zip qs have cases:
    "all_wesco_entries st = [entry_of q1 d, entry_of q2 p]
     \<or> all_wesco_entries st = [entry_of q1 p, entry_of q2 d]"
    by auto
  have addr: "list_all has_address (all_wesco_entries st)"
    using cases d p
    by (auto simp: has_address_def entry_of_def is_denver_branch_def is_pueblo_branch_def)
  have "list_all (\<lambda>r. snd r \<noteq> Failed) (checklist (all_wesco_entries st))"
    using cases d p
    by (auto simp: checklist_def unique_verdict_def denver_verdict_def pueblo_verdict_def
        removed_verdict_def unique_locations_def location_key_def entry_of_def denver_kva_def
        pueblo_wesco_def address_contains_def denver_consistent_def invalid_addresses_def
        is_denver_branch_def is_pueblo_branch_def)
  with run_reports [OF dir scan addr] show ?thesis by simp
qed

text \<open>The theorem at the directory whose only file holds the two records.\<close>

theorem only_the_two_entries_succeed_witness:
  "snd (verify_wesco_cleanup (metro_only [denver_branch, pueblo_branch])) = Inr True
   \<and> exit_status (metro_only [denver_branch, pueblo_branch]) = 0"
proof -
  let ?fs = "metro_only [denver_branch, pueblo_branch]"
  have h1: "dir_exists ?fs" by (simp add: metro_only_def)
  have h2: "\<forall>f\<in>set files_to_check. file_at ?fs f \<noteq> Some Malformed"
    by (simp add: metro_only_def)
  have h3: "present_matches ?fs = [denver_branch, pueblo_branch]
            \<or> present_matches ?fs = [pueblo_branch, denver_branch]"
    by (simp add: present_matches_def matches_at_def wesco_entries_def is_wesco_def
        get_default_def sample_defs)
  have h4: "is_denver_branch denver_branch"
    by (simp add: is_denver_branch_def denver_branch_def)
  have h5: "is_pueblo_branch pueblo_branch"
    by (simp add: is_pueblo_branch_def pueblo_branch_def)
  show ?thesis by (rule only_the_two_entries_succeed [OF h1 h2 h3 h4 h5])
qed

text \<open>
  Claim C1 as it is stated fails: a file with the Denver record, the Pueblo record and a
  third matching record, in Boulder and at none of the removed addresses, has exactly one
  record of each of the two kinds and none at a removed address; the run counts three
  unique locations, returns False and exits with status 1.
\<close>

theorem third_location_counterexample:
  "dir_exists (metro_only [denver_branch, pueblo_branch, boulder_branch])
   \<and> length (filter is_denver_branch
        (present_matches (metro_only [denver_branch, pueblo_branch, boulder_branch]))) = 1
   \<and> length (filter is_pueblo_branch
        (present_matches (metro_only [denver_branch, pueblo_branch, boulder_branch]))) = 1
   \<and> \<not> list_ex at_forbidden_address
        (present_matches (metro_only [denver_branch, pueblo_branch, boulder_branch]))
   \<and> snd (verify_wesco_cleanup (metro_only [denver_branch, pueblo_branch, boulder_branch]))
       = Inr False
   \<and> exit_status (metro_only [denver_branch, pueblo_branch, boulder_branch]) = 1"
  by code_simp

subsection \<open>Missing directory, missing files\<close>

lemma length_concat_map_map:
  "length (concat (map (\<lambda>q. map (f q) (g q)) ps)) = length (concat (map g ps))"
  by (induction ps) simp_all

lemma matches_at_explicit:
  "matches_at fs q =
     filter (\<lambda>b. sublist ''WESCO'' (case b ''chain'' of None \<Rightarrow> [] | Some v \<Rightarrow> v)
                 \<or> sublist ''WESCO'' (case b ''name'' of None \<Rightarrow> [] | Some v \<Rightarrow> v)
                 \<or> sublist ''KVA'' (case b ''name'' of None \<Rightarrow> [] | Some v \<Rightarrow> v))
       (case file_at fs q of Some (Document (Some bs)) \<Rightarrow> bs | _ \<Rightarrow> [])"
proof -
  have w: "is_wesco = (\<lambda>b. sublist ''WESCO'' (case b ''chain'' of None \<Rightarrow> [] | Some v \<Rightarrow> v)
                   \<or> sublist ''WESCO'' (case b ''name'' of None \<Rightarrow> [] | Some v \<Rightarrow> v)
                   \<or> sublist ''KVA'' (case b ''name'' of None \<Rightarrow> [] | Some v \<Rightarrow> v))"
    by (simp add: fun_eq_iff is_wesco_def get_default_def contains_sublist)
  have m: "matches_at fs q =
      filter is_wesco (case file_at fs q of Some (Document (Some bs)) \<Rightarrow> bs | _ \<Rightarrow> [])"
    by (simp add: matches_at_def wesco_entries_def split: option.split json_file.split)
  show ?thesis unfolding m w ..
qed

lemma run_prints_summary:
  assumes dir: "dir_exists fs"
    and scan: "scan_files fs files_to_check
                 (prints [Rule, Title_verification, Rule, Blank] initial) = Inr st"
  shows "Summary_total (total_branches st) \<in> set (fst (verify_wesco_cleanup fs))
     \<and> Summary_matches (length (all_wesco_entries st)) \<in> set (fst (verify_wesco_cleanup fs))"
proof -
  let ?st1 = "check_unique (length (unique_locations (all_wesco_entries (summarise st))))
                ((summarise st)\<lparr>success := True\<rparr>)"
  have 1: "Summary_total (total_branches st) \<in> set (console ?st1)
      \<and> Summary_matches (length (all_wesco_entries st)) \<in> set (console ?st1)"
    by (simp add: check_unique_def summarise_def)
  have "prefix (console ?st1) (fst (verify_wesco_cleanup fs))"
  proof (cases "validate (summarise st)")
    case (Inl x)
    with validate_prefix [of "summarise st"] dir scan show ?thesis
      by (cases x) (simp add: verify_wesco_cleanup_def)
  next
    case (Inr st')
    with validate_prefix [of "summarise st"] have "prefix (console ?st1) (console st')" by simp
    also have "prefix (console st') (console (banner st'))" by (simp add: banner_def)
    finally show ?thesis using dir scan Inr by (simp add: verify_wesco_cleanup_def)
  qed
  from set_mono_prefix [OF this] 1 show ?thesis by blast
qed

lemma run_summary_explicit:
  assumes dir: "dir_exists fs"
    and parse: "\<forall>q\<in>set files_to_check. file_at fs q \<noteq> Some Malformed"
  shows "Summary_total (sum_list (map (\<lambda>q. length (case file_at fs q of
                                   Some (Document (Some bs)) \<Rightarrow> bs | _ \<Rightarrow> [])) files_to_check))
           \<in> set (fst (verify_wesco_cleanup fs))
     \<and> Summary_matches (length (concat (map (\<lambda>q.
            filter (\<lambda>b. sublist ''WESCO'' (case b ''chain'' of None \<Rightarrow> [] | Some v \<Rightarrow> v)
                        \<or> sublist ''WESCO'' (case b ''name'' of None \<Rightarrow> [] | Some v \<Rightarrow> v)
                        \<or> sublist ''KVA'' (case b ''name'' of None \<Rightarrow> [] | Some v \<Rightarrow> v))
              (case file_at fs q of Some (Document (Some bs)) \<Rightarrow> bs | _ \<Rightarrow> []))
            files_to_check)))
           \<in> set (fst (verify_wesco_cleanup fs))"
proof -
  let ?st0 = "prints [Rule, Title_verification, Rule, Blank] initial"
  from scan_files_loads [OF parse, of ?st0] obtain st where
    scan: "scan_files fs files_to_check ?st0 = Inr st"
    and es: "all_wesco_entries st =
       concat (map (\<lambda>q. map (entry_of q) (matches_at fs q)) files_to_check)"
    and tot: "total_branches st =
       sum_list (map (\<lambda>q. length (case file_at fs q of
                      Some (Document (Some bs)) \<Rightarrow> bs | _ \<Rightarrow> [])) files_to_check)"
    by (auto simp: initial_def)
  have "length (all_wesco_entries st) = length (concat (map (matches_at fs) files_to_check))"
    unfolding es by (rule length_concat_map_map)
  moreover have "matches_at fs = (\<lambda>q.
            filter (\<lambda>b. sublist ''WESCO'' (case b ''chain'' of None \<Rightarrow> [] | Some v \<Rightarrow> v)
                        \<or> sublist ''WESCO'' (case b ''name'' of None \<Rightarrow> [] | Some v \<Rightarrow> v)
                        \<or> sublist ''KVA'' (case b ''name'' of None \<Rightarrow> [] | Some v \<Rightarrow> v))
              (case file_at fs q of Some (Document (Some bs)) \<Rightarrow> bs | _ \<Rightarrow> []))"
    by (rule ext) (rule matches_at_explicit)
  ultimately show ?thesis
    using run_prints_summary [OF dir scan] tot by simp
qed


lemma scan_loads_explicit:
  "\<forall>q\<in>set ps. file_at fs q \<noteq> Some Malformed \<Longrightarrow>
     \<exists>st'. scan_files fs ps st = Inr st'
             \<and> all_wesco_entries st' =
                 all_wesco_entries st
                 @ concat (map (\<lambda>q.
                     map (\<lambda>b. \<lparr>file_path = drop (length ''supplyfind-updates/'') q, name = b ''name'', chain = b ''chain'',
                               city = b ''city'', address = b ''address1'', phone = b ''phone'',
                               verified = b ''last_verified'',
                               operating_name = b ''operatingName''\<rparr>)
                       (filter (\<lambda>b. sublist ''WESCO'' (case b ''chain'' of None \<Rightarrow> [] | Some v \<Rightarrow> v)
                                   \<or> sublist ''WESCO'' (case b ''name'' of None \<Rightarrow> [] | Some v \<Rightarrow> v)
                                   \<or> sublist ''KVA'' (case b ''name'' of None \<Rightarrow> [] | Some v \<Rightarrow> v))
                          (case file_at fs q of Some (Document (Some bs)) \<Rightarrow> bs | _ \<Rightarrow> [])))
                     ps)
             \<and> total_branches st' =
                 total_branches st
                 + sum_list (map (\<lambda>q. length (case file_at fs q of
                                                 Some (Document (Some bs)) \<Rightarrow> bs | _ \<Rightarrow> []))
                               ps)"
  using scan_files_loads [of ps fs st] unfolding loaded_entries_explicit .

text \<open>
  Claim C6. A file of the list that does not exist is skipped: the scan goes on with the
  files after it exactly as if the file were not in the list, so nothing is printed for it
  and nothing is raised; and the whole run prints and returns what it does when the file
  exists with an empty list of branches, so the absence alone fails no check. The other
  files are still loaded and filtered: when those that are present parse, the scan ends
  without exception, it has counted the branches of every present file, and it has added,
  in the order of the list, one entry for every branch record of a present file in which
  WESCO occurs in the chain or the name or KVA occurs in the name, with the path of that
  file below \<^verbatim>\<open>supplyfind-updates\<close> and the fields of that record. And the run, when
  the directory exists and the files that are present parse, prints in its summary the
  number of branches and the number of such records of the files that are present.
\<close>

theorem missing_file_skipped:
  assumes "file_at fs p = None"
  shows "scan_files fs (ps @ p # qs) st = scan_files fs (ps @ qs) st
     \<and> verify_wesco_cleanup fs =
         verify_wesco_cleanup (fs\<lparr>file_at := (file_at fs)(p \<mapsto> Document (Some []))\<rparr>)
     \<and> ((\<forall>q\<in>set (ps @ qs). file_at fs q \<noteq> Some Malformed) \<longrightarrow>
          (\<exists>st'. scan_files fs (ps @ p # qs) st = Inr st'
             \<and> all_wesco_entries st' =
                 all_wesco_entries st
                 @ concat (map (\<lambda>q.
                     map (\<lambda>b. \<lparr>file_path = drop (length ''supplyfind-updates/'') q, name = b ''name'', chain = b ''chain'',
                               city = b ''city'', address = b ''address1'', phone = b ''phone'',
                               verified = b ''last_verified'',
                               operating_name = b ''operatingName''\<rparr>)
                       (filter (\<lambda>b. sublist ''WESCO'' (case b ''chain'' of None \<Rightarrow> [] | Some v \<Rightarrow> v)
                                   \<or> sublist ''WESCO'' (case b ''name'' of None \<Rightarrow> [] | Some v \<Rightarrow> v)
                                   \<or> sublist ''KVA'' (case b ''name'' of None \<Rightarrow> [] | Some v \<Rightarrow> v))
                          (case file_at fs q of Some (Document (Some bs)) \<Rightarrow> bs | _ \<Rightarrow> [])))
                     (ps @ qs))
             \<and> total_branches st' =
                 total_branches st
                 + sum_list (map (\<lambda>q. length (case file_at fs q of
                                                 Some (Document (Some bs)) \<Rightarrow> bs | _ \<Rightarrow> []))
                               (ps @ qs))))
     \<and> (dir_exists fs \<and> (\<forall>q\<in>set files_to_check. file_at fs q \<noteq> Some Malformed) \<longrightarrow>
          Summary_total (sum_list (map (\<lambda>q. length (case file_at fs q of
                                     Some (Document (Some bs)) \<Rightarrow> bs | _ \<Rightarrow> [])) files_to_check))
            \<in> set (fst (verify_wesco_cleanup fs))
          \<and> Summary_matches (length (concat (map (\<lambda>q.
              filter (\<lambda>b. sublist ''WESCO'' (case b ''chain'' of None \<Rightarrow> [] | Some v \<Rightarrow> v)
                         \<or> sublist ''WESCO'' (case b ''name'' of None \<Rightarrow> [] | Some v \<Rightarrow> v)
                         \<or> sublist ''KVA'' (case b ''name'' of None \<Rightarrow> [] | Some v \<Rightarrow> v))
                (case file_at fs q of Some (Document (Some bs)) \<Rightarrow> bs | _ \<Rightarrow> []))
              files_to_check)))
            \<in> set (fst (verify_wesco_cleanup fs)))"
  apply (intro conjI)
  subgoal using assms by (rule scan_files_skip)
  subgoal using assms by (simp add: verify_wesco_cleanup_def scan_files_empty_document)
  subgoal unfolding scan_files_skip [OF assms] by (rule impI) (rule scan_loads_explicit)
  subgoal by (rule impI, erule conjE) (rule run_summary_explicit)
  done

text \<open>
  The theorem at the fourth file of the list, in the directory that has the first only:
  the two records of the first file are loaded from it and counted in the summary.
\<close>

theorem missing_file_skipped_witness:
  "file_at (metro_only [denver_branch, pueblo_branch]) (files_to_check ! 3) = None
   \<and> (\<exists>st'. scan_files (metro_only [denver_branch, pueblo_branch])
              (take 3 files_to_check @ files_to_check ! 3 # drop 4 files_to_check) initial
            = Inr st'
          \<and> map address (all_wesco_entries st') = [Some ''11198 E 45th Ave'', Some ''115 S Main St'']
          \<and> map file_path (all_wesco_entries st')
               = [''us/co/denver-metro.json'', ''us/co/denver-metro.json'']
          \<and> total_branches st' = 2)
   \<and> Summary_total 2 \<in> set (fst (verify_wesco_cleanup (metro_only [denver_branch, pueblo_branch])))
   \<and> Summary_matches 2 \<in> set (fst (verify_wesco_cleanup (metro_only [denver_branch, pueblo_branch])))"
proof -
  let ?fs = "metro_only [denver_branch, pueblo_branch]"
  have h: "file_at ?fs (files_to_check ! 3) = None"
    by (simp add: metro_only_def files_to_check_def base_dir_def)
  have m: "\<forall>q\<in>set (take 3 files_to_check @ drop 4 files_to_check).
             file_at ?fs q \<noteq> Some Malformed"
    by (simp add: metro_only_def)
  have d: "dir_exists ?fs \<and> (\<forall>q\<in>set files_to_check. file_at ?fs q \<noteq> Some Malformed)"
    by (simp add: metro_only_def)
  note t = missing_file_skipped [OF h, of "take 3 files_to_check" "drop 4 files_to_check" initial]
  from t [THEN conjunct2, THEN conjunct2, THEN conjunct1, THEN mp, OF m]
  obtain st' where
    s: "scan_files ?fs (take 3 files_to_check @ files_to_check ! 3 # drop 4 files_to_check) initial
       = Inr st'"
    and e: "all_wesco_entries st' =
                 all_wesco_entries initial
                 @ concat (map (\<lambda>q.
                     map (\<lambda>b. \<lparr>file_path = drop (length ''supplyfind-updates/'') q, name = b ''name'', chain = b ''chain'',
                               city = b ''city'', address = b ''address1'', phone = b ''phone'',
                               verified = b ''last_verified'',
                               operating_name = b ''operatingName''\<rparr>)
                       (filter (\<lambda>b. sublist ''WESCO'' (case b ''chain'' of None \<Rightarrow> [] | Some v \<Rightarrow> v)
                                   \<or> sublist ''WESCO'' (case b ''name'' of None \<Rightarrow> [] | Some v \<Rightarrow> v)
                                   \<or> sublist ''KVA'' (case b ''name'' of None \<Rightarrow> [] | Some v \<Rightarrow> v))
                          (case file_at ?fs q of Some (Document (Some bs)) \<Rightarrow> bs | _ \<Rightarrow> [])))
                     (take 3 files_to_check @ drop 4 files_to_check))"
    and n: "total_branches st' =
                 total_branches initial
                 + sum_list (map (\<lambda>q. length (case file_at ?fs q of
                                                 Some (Document (Some bs)) \<Rightarrow> bs | _ \<Rightarrow> []))
                               (take 3 files_to_check @ drop 4 files_to_check))"
    by blast
  from e n have r: "map address (all_wesco_entries st') = [Some ''11198 E 45th Ave'', Some ''115 S Main St'']
      \<and> map file_path (all_wesco_entries st')
           = [''us/co/denver-metro.json'', ''us/co/denver-metro.json'']
      \<and> total_branches st' = 2"
    by (simp add: sample_defs initial_def contains_sublist [symmetric])
  from t [THEN conjunct2, THEN conjunct2, THEN conjunct2, THEN mp, OF d]
  have u: "Summary_total 2 \<in> set (fst (verify_wesco_cleanup ?fs))
      \<and> Summary_matches 2 \<in> set (fst (verify_wesco_cleanup ?fs))"
    by (simp add: sample_defs contains_sublist [symmetric] numeral_2_eq_2)
  from s r have "\<exists>st'. scan_files ?fs
        (take 3 files_to_check @ files_to_check ! 3 # drop 4 files_to_check) initial = Inr st'
      \<and> map address (all_wesco_entries st') = [Some ''11198 E 45th Ave'', Some ''115 S Main St'']
      \<and> map file_path (all_wesco_entries st')
           = [''us/co/denver-metro.json'', ''us/co/denver-metro.json'']
      \<and> total_branches st' = 2"
    by (intro exI [of _ st']) (rule conjI, assumption+)
  with h u show ?thesis by - (rule conjI, assumption, rule conjI, assumption+)
qed

text \<open>
  Claim C5, as amended. When the directory is missing, the run prints the two lines of the
  directory error, runs no check, returns False and exits with status 1. When the
  directory exists, missing files are no error, whichever they are: the lines of the
  directory error are not printed, and once the files that are present have parsed the
  checks run, the console showing the verdict on the number of unique locations. When
  none of the six files exists, the checks run on an empty list of entries: those of the
  unique locations, of Denver and of Pueblo fail, those of the three removed addresses
  pass, and the run returns False and exits with status 1.
\<close>

theorem missing_directory_or_files:
  assumes dir: "dir_exists fs"
  shows "verify_wesco_cleanup (fs\<lparr>dir_exists := False\<rparr>)
           = ([Err_no_directory, Hint_repository_root], Inr False)
     \<and> exit_status (fs\<lparr>dir_exists := False\<rparr>) = 1
     \<and> Err_no_directory \<notin> set (fst (verify_wesco_cleanup fs))
     \<and> Hint_repository_root \<notin> set (fst (verify_wesco_cleanup fs))
     \<and> ((\<forall>f\<in>set files_to_check. file_at fs f \<noteq> Some Malformed) \<longrightarrow>
          (\<exists>n. (if n = 2 then Pass_unique else Fail_unique n)
                 \<in> set (fst (verify_wesco_cleanup fs))))
     \<and> ((\<forall>f\<in>set files_to_check. file_at fs f = None) \<longrightarrow>
          verify_wesco_cleanup fs =
            ([Rule, Title_verification, Rule, Blank, Rule, Title_summary, Rule,
              Summary_total 0, Summary_matches 0, Blank, Unique_count 0, Blank,
              Fail_unique 0, Fail_denver_missing 0, Fail_pueblo_count 0, Blank,
              Title_removed, Pass_removed ''756 S Jason'', Pass_removed ''6883 E 47th'',
              Pass_removed ''133 Commerce'', Blank, Rule,
              Some_failed, Blank, Closing_review, Rule], Inr False)
          \<and> exit_status fs = 1)"
proof -
  have a: "verify_wesco_cleanup (fs\<lparr>dir_exists := False\<rparr>)
           = ([Err_no_directory, Hint_repository_root], Inr False)"
    by (simp add: verify_wesco_cleanup_def)
  have b: "exit_status (fs\<lparr>dir_exists := False\<rparr>) = 1"
    by (simp add: verify_wesco_cleanup_def exit_status_def)
  from run_env [OF dir] have "\<forall>l\<in>set (fst (verify_wesco_cleanup fs)). \<not> env_error l"
    by (simp add: filter_empty_conv)
  then have c: "Err_no_directory \<notin> set (fst (verify_wesco_cleanup fs))
      \<and> Hint_repository_root \<notin> set (fst (verify_wesco_cleanup fs))"
    by (auto simp: env_error_def)
  have d: "\<exists>n. (if n = 2 then Pass_unique else Fail_unique n)
                 \<in> set (fst (verify_wesco_cleanup fs))"
    if "\<forall>f\<in>set files_to_check. file_at fs f \<noteq> Some Malformed"
  proof -
    from scan_files_entries [OF that, of "prints [Rule, Title_verification, Rule, Blank] initial"]
    obtain st where "scan_files fs files_to_check
                 (prints [Rule, Title_verification, Rule, Blank] initial) = Inr st"
      by blast
    from run_prints_unique [OF dir this] show ?thesis by blast
  qed
  have e: "verify_wesco_cleanup fs =
            ([Rule, Title_verification, Rule, Blank, Rule, Title_summary, Rule,
              Summary_total 0, Summary_matches 0, Blank, Unique_count 0, Blank,
              Fail_unique 0, Fail_denver_missing 0, Fail_pueblo_count 0, Blank,
              Title_removed, Pass_removed ''756 S Jason'', Pass_removed ''6883 E 47th'',
              Pass_removed ''133 Commerce'', Blank, Rule,
              Some_failed, Blank, Closing_review, Rule], Inr False)
          \<and> exit_status fs = 1"
    if "\<forall>f\<in>set files_to_check. file_at fs f = None"
  proof -
    from that
    have "scan_files fs files_to_check (prints [Rule, Title_verification, Rule, Blank] initial)
        = Inr (prints [Rule, Title_verification, Rule, Blank] initial)"
      by (rule scan_files_all_missing)
    with dir show ?thesis
      by (simp add: verify_wesco_cleanup_def exit_status_def initial_def prints_def print_def
          summarise_def validate_def unique_locations_def check_unique_def check_denver_def
          check_pueblo_def judge_denver_def judge_pueblo_def fail_def invalid_addresses_def
          banner_def)
  qed
  from a b c d e show ?thesis by blast
qed

text \<open>The theorem at the directory that exists and is empty.\<close>

theorem missing_directory_or_files_witness:
  "verify_wesco_cleanup (no_files\<lparr>dir_exists := False\<rparr>)
       = ([Err_no_directory, Hint_repository_root], Inr False)
   \<and> exit_status (no_files\<lparr>dir_exists := False\<rparr>) = 1
   \<and> Err_no_directory \<notin> set (fst (verify_wesco_cleanup no_files))
   \<and> Fail_unique 0 \<in> set (fst (verify_wesco_cleanup no_files))
   \<and> snd (verify_wesco_cleanup no_files) = Inr False
   \<and> exit_status no_files = 1"
proof -
  have d: "dir_exists no_files" by (simp add: no_files_def)
  have m: "\<forall>f\<in>set files_to_check. file_at no_files f \<noteq> Some Malformed"
    by (simp add: no_files_def)
  have n: "\<forall>f\<in>set files_to_check. file_at no_files f = None"
    by (simp add: no_files_def)
  from missing_directory_or_files [OF d] m n show ?thesis by simp
qed

text \<open>
  Claim C5 as it is stated fails. With five of the six files missing the run prints no
  error, runs the checks, returns True and exits with status 0; and with all six missing
  it prints no error either, and reports the six items of the checklist.
\<close>

theorem missing_file_counterexample:
  "dir_exists (metro_only [denver_branch, pueblo_branch])
   \<and> file_at (metro_only [denver_branch, pueblo_branch]) (files_to_check ! 3) = None
   \<and> snd (verify_wesco_cleanup (metro_only [denver_branch, pueblo_branch])) = Inr True
   \<and> exit_status (metro_only [denver_branch, pueblo_branch]) = 0
   \<and> Err_no_directory \<notin> set (fst (verify_wesco_cleanup (metro_only [denver_branch, pueblo_branch])))
   \<and> dir_exists no_files
   \<and> list_all (\<lambda>f. file_at no_files f = None) files_to_check
   \<and> Err_no_directory \<notin> set (fst (verify_wesco_cleanup no_files))
   \<and> reports (fst (verify_wesco_cleanup no_files)) =
       [(Unique_item, Failed), (Denver_item, Failed), (Pueblo_item, Failed),
        (Removed_item ''756 S Jason'', Passed), (Removed_item ''6883 E 47th'', Passed),
        (Removed_item ''133 Commerce'', Passed)]"
  by code_simp

subsection \<open>Runs that a missing address cuts short\<close>

text \<open>
  Claim C10. There are inputs with a branch record that passes the filter and has no
  \<^verbatim>\<open>address1\<close> on which the validation raises TypeError before the checklist is
  through: with the record in Denver the Denver comprehension raises, after the report of
  the first item only; with the record in Pueblo the Pueblo comprehension raises, after
  the reports of two items; with the record in another city the comprehension of the first
  removed address raises, after the reports of three.
\<close>

theorem missing_address_raises:
  "is_wesco (lacking_address ''Denver'') \<and> lacking_address ''Denver'' ''address1'' = None
   \<and> snd (verify_wesco_cleanup (metro_only [lacking_address ''Denver''])) = Inl TypeError
   \<and> reports (fst (verify_wesco_cleanup (metro_only [lacking_address ''Denver''])))
       = [(Unique_item, Failed)]
   \<and> is_wesco (lacking_address ''Pueblo'') \<and> lacking_address ''Pueblo'' ''address1'' = None
   \<and> snd (verify_wesco_cleanup (metro_only [lacking_address ''Pueblo''])) = Inl TypeError
   \<and> reports (fst (verify_wesco_cleanup (metro_only [lacking_address ''Pueblo''])))
       = [(Unique_item, Failed), (Denver_item, Failed)]
   \<and> is_wesco (lacking_address ''Boulder'') \<and> lacking_address ''Boulder'' ''address1'' = None
   \<and> snd (verify_wesco_cleanup (metro_only [lacking_address ''Boulder''])) = Inl TypeError
   \<and> reports (fst (verify_wesco_cleanup (metro_only [lacking_address ''Boulder''])))
       = [(Unique_item, Failed), (Denver_item, Failed), (Pueblo_item, Failed)]"
  by code_simp

text \<open>
  Claim C2 at a file with a Boulder record and a Pueblo record without address. The Denver
  item fails, and the Pueblo comprehension then raises TypeError: the Pueblo item and the
  three removed addresses are never reported, no flag is returned and no closing banner
  is printed. The process exits with status 1.
\<close>

theorem checklist_cut_short:
  "snd (verify_wesco_cleanup (metro_only [boulder_branch, lacking_address ''Pueblo'']))
     = Inl TypeError
   \<and> reports (fst (verify_wesco_cleanup (metro_only [boulder_branch, lacking_address ''Pueblo''])))
       = [(Unique_item, Passed), (Denver_item, Failed)]
   \<and> Some_failed \<notin> set (fst (verify_wesco_cleanup
         (metro_only [boulder_branch, lacking_address ''Pueblo''])))
   \<and> exit_status (metro_only [boulder_branch, lacking_address ''Pueblo'']) = 1"
  by code_simp

text \<open>
  Claim C7 at a file with the consistent Denver record and a second Denver record without
  address: the Denver comprehension raises TypeError, so the Denver item gets no report,
  neither a failure nor a warning, and the run returns no result.
\<close>

theorem denver_check_cut_short:
  "is_denver_branch denver_branch
   \<and> snd (verify_wesco_cleanup (metro_only [denver_branch, lacking_address ''Denver'']))
       = Inl TypeError
   \<and> reports (fst (verify_wesco_cleanup (metro_only [denver_branch, lacking_address ''Denver''])))
       = [(Unique_item, Passed)]"
  by code_simp

text \<open>
  Claim C8 at a file with the Pueblo record and a second Pueblo record without address:
  exactly one entry is in Pueblo with an address that contains 115 S Main, and its chain
  is WESCO, yet the Pueblo comprehension raises TypeError and the Pueblo item gets no
  report.
\<close>

theorem pueblo_check_cut_short:
  "is_pueblo_branch pueblo_branch
   \<and> snd (verify_wesco_cleanup (metro_only [pueblo_branch, lacking_address ''Pueblo'']))
       = Inl TypeError
   \<and> reports (fst (verify_wesco_cleanup (metro_only [pueblo_branch, lacking_address ''Pueblo''])))
       = [(Unique_item, Passed), (Denver_item, Failed)]"
  by code_simp

text \<open>
  Claim C9 at a file with a record at 756 S Jason St and a Boulder record without address:
  the comprehension for the first removed address raises TypeError, so this address gets
  no report and the run returns no result.
\<close>

theorem removed_check_cut_short:
  "jason_branch ''address1'' = Some ''756 S Jason St''
   \<and> snd (verify_wesco_cleanup (metro_only [jason_branch, lacking_address ''Boulder'']))
       = Inl TypeError
   \<and> reports (fst (verify_wesco_cleanup (metro_only [jason_branch, lacking_address ''Boulder''])))
       = [(Unique_item, Passed), (Denver_item, Failed), (Pueblo_item, Failed)]"
  by code_simp

end
